theory Spec2Isabelle
  imports Main
begin

section \<open>SystemTestsCompareTwo: the two-phase comparison test\<close>

text \<open>
  A shallow embedding of \<^verbatim>\<open>utils/python/CIME/SystemTests/system_tests_compare_two.py\<close>.
  The class drives a case through two runs and compares their output. Every method
  of the class is a state transformer over the fields of the object together with a
  record of the calls the class makes to its hooks and collaborators; an exception
  is a result value, and the state reached when it was raised is kept.
\<close>

subsection \<open>Errors, hooks and calls\<close>

datatype error =
    ConfigurationError string
  | NotImplementedError string
  | ValueError string

text \<open>The methods an individual test may or must override.\<close>

datatype hook =
    Run_common_setup
  | Run_one_setup
  | Run_two_setup
  | Pre_build
  | Adjust_pes_for_run_one
  | Adjust_pes_for_run_two
  | Build_one_setup
  | Build_two_setup

text \<open>
  One entry of the log: a call made by the class to a hook, to a method of the base
  class \<^verbatim>\<open>SystemTestsCommon\<close>, to the case object, to the logger or to one of the
  helpers that keep saved copies of XML files. The unit tests of the repository
  record the same calls with the same arguments.
\<close>

datatype call =
    Hook hook
  | Stage_saved_pes_file string
  | Stage_saved_build_files string
  | Load_staged_xml_files bool
  | Run string
  | Component_compare_test string string
  | Common_build bool bool
  | Save_build_files string
  | Restore_or_save_xml_file string string
  | Save_xml_file string string
  | Case_flush
  | Case_read_xml
  | Logger_info string

subsection \<open>The object and its surroundings\<close>

text \<open>
  The fields set by \<^verbatim>\<open>__init__\<close>, then the two parts of the world outside the
  object that the class acts on: the log of calls, and the saved copies of XML files
  in the case directory, each a pair of the file's name and the suffix it was saved
  under.
\<close>

record system_test =
  runs_have_different_pe_settings :: bool
  two_builds_for_sharedlib :: bool
  two_builds_for_model :: bool
  run_one_suffix :: string
  run_two_suffix :: string
  run_one_description :: string
  run_two_description :: string
  status_run1 :: string
  status_run2 :: string
  status_compare :: string
  log :: "call list"
  saved_xml_files :: "(string \<times> string) list"

text \<open>
  What the individual test and the base class supply: which hooks the test
  overrides, whether \<^verbatim>\<open>_run\<close> succeeds for a suffix, and whether
  \<^verbatim>\<open>_component_compare_test\<close> succeeds for a pair of suffixes.
\<close>

record env =
  overrides :: "hook \<Rightarrow> bool"
  run_succeeds :: "string \<Rightarrow> bool"
  compare_succeeds :: "string \<Rightarrow> string \<Rightarrow> bool"

type_synonym 'a action = "system_test \<Rightarrow> (error + 'a) \<times> system_test"

definition return_m :: "'a \<Rightarrow> 'a action" where
  "return_m a s = (Inr a, s)"

definition raise_m :: "error \<Rightarrow> 'a action" where
  "raise_m err s = (Inl err, s)"

definition bind_m :: "'a action \<Rightarrow> ('a \<Rightarrow> 'b action) \<Rightarrow> 'b action" where
  "bind_m m f s = (case m s of (Inl err, s') \<Rightarrow> (Inl err, s') | (Inr a, s') \<Rightarrow> f a s')"

definition then_m :: "unit action \<Rightarrow> 'a action \<Rightarrow> 'a action" where
  "then_m m k = bind_m m (\<lambda>_. k)"

text \<open>A sequence of statements: the first exception ends it.\<close>

fun block :: "unit action list \<Rightarrow> unit action" where
  "block [] = return_m ()"
| "block (m # ms) = then_m m (block ms)"

definition record_call :: "call \<Rightarrow> unit action" where
  "record_call c s = (Inr (), s\<lparr>log := log s @ [c]\<rparr>)"

subsection \<open>Python's \<^verbatim>\<open>str.rstrip()\<close>\<close>

text \<open>
  Without an argument \<^verbatim>\<open>rstrip\<close> removes the whitespace at the end of a string. The
  strings of the code are byte strings (the code was written for Python 2), and
  their whitespace is tab, line feed, vertical tab, form feed, carriage return and
  space.
\<close>

definition isspace :: "char \<Rightarrow> bool" where
  "isspace c = (c \<in> set [CHR 0x09, CHR 0x0A, CHR 0x0B, CHR 0x0C, CHR 0x0D, CHR 0x20])"

definition rstrip :: "string \<Rightarrow> string" where
  "rstrip s = rev (dropWhile isspace (rev s))"

subsection \<open>The constructor\<close>

definition ORIGINAL_SUFFIX :: string where
  "ORIGINAL_SUFFIX = ''original''"

text \<open>
  Modelled from the spec: \<^verbatim>\<open>expect\<close> is imported from a module that is not part of
  the sources at hand. The spec calls its failure a configuration error, raised at
  once; it carries the message.
\<close>

definition expect :: "bool \<Rightarrow> string \<Rightarrow> error + unit" where
  "expect condition error_msg = (if condition then Inr () else Inl (ConfigurationError error_msg))"

text \<open>A string between single quotes, as the messages of the constructor format it.\<close>

definition quoted :: "string \<Rightarrow> string" where
  "quoted s = [CHR 0x27] @ s @ [CHR 0x27]"

text \<open>
  \<^verbatim>\<open>__init__\<close>. The argument \<open>saved\<close> stands for the case: the saved XML files
  found in its directory. \<^verbatim>\<open>SystemTestsCommon.__init__\<close> sets fields that this
  class only passes on, and is left out. The first run's suffix is fixed.
\<close>

definition init ::
  "(string \<times> string) list \<Rightarrow> bool \<Rightarrow> bool \<Rightarrow> bool \<Rightarrow> string \<Rightarrow> string \<Rightarrow> string
     \<Rightarrow> error + system_test" where
  "init saved two_builds_for_sharedlib' two_builds_for_model' runs_have_different_pe_settings'
        run_two_suffix' run_one_description' run_two_description' =
     (let one = ''base''; two = rstrip run_two_suffix' in
      case expect (two \<noteq> one)
             ''ERROR: Must have different suffixes for run one and run two'' of
        Inl err \<Rightarrow> Inl err
      | Inr _ \<Rightarrow>
      (case expect (one \<noteq> ORIGINAL_SUFFIX)
             (''ERROR: Run one suffix cannot be '' @ quoted ORIGINAL_SUFFIX) of
        Inl err \<Rightarrow> Inl err
      | Inr _ \<Rightarrow>
      (case expect (two \<noteq> ORIGINAL_SUFFIX)
             (''ERROR: Run two suffix cannot be '' @ quoted ORIGINAL_SUFFIX) of
        Inl err \<Rightarrow> Inl err
      | Inr _ \<Rightarrow>
        Inr \<lparr> runs_have_different_pe_settings = runs_have_different_pe_settings',
              two_builds_for_sharedlib = two_builds_for_sharedlib',
              two_builds_for_model = two_builds_for_model',
              run_one_suffix = one,
              run_two_suffix = two,
              run_one_description = run_one_description',
              run_two_description = run_two_description',
              status_run1 = ''NOT RUN'',
              status_run2 = ''NOT RUN'',
              status_compare = ''NOT RUN'',
              log = [],
              saved_xml_files = saved \<rparr>)))"

subsection \<open>Hooks\<close>

text \<open>
  A call to a hook is recorded. The class's own version of a hook raises
  \<^verbatim>\<open>NotImplementedError\<close>, except \<^verbatim>\<open>_pre_build\<close>, which does nothing; what an
  overriding version does is up to the individual test and is not modelled beyond
  the fact that it was called.
\<close>

definition hook_call :: "env \<Rightarrow> hook \<Rightarrow> string \<Rightarrow> unit action" where
  "hook_call e h msg =
     then_m (record_call (Hook h))
       (if overrides e h then return_m () else raise_m (NotImplementedError msg))"

definition run_common_setup :: "env \<Rightarrow> unit action" where
  "run_common_setup e = hook_call e Run_common_setup []"

definition run_one_setup :: "env \<Rightarrow> unit action" where
  "run_one_setup e = hook_call e Run_one_setup []"

definition run_two_setup :: "env \<Rightarrow> unit action" where
  "run_two_setup e = hook_call e Run_two_setup []"

definition pre_build :: "env \<Rightarrow> unit action" where
  "pre_build e = record_call (Hook Pre_build)"

definition adjust_pes_for_run_one :: "env \<Rightarrow> unit action" where
  "adjust_pes_for_run_one e = hook_call e Adjust_pes_for_run_one
     ''_adjust_pes_for_run_one must be implemented by tests with two PE layouts''"

definition adjust_pes_for_run_two :: "env \<Rightarrow> unit action" where
  "adjust_pes_for_run_two e = hook_call e Adjust_pes_for_run_two
     ''_adjust_pes_for_run_two must be implemented by tests with two PE layouts''"

definition build_one_setup :: "env \<Rightarrow> unit action" where
  "build_one_setup e = hook_call e Build_one_setup
     ''_build_one_setup must be implemented by tests with two builds''"

definition build_two_setup :: "env \<Rightarrow> unit action" where
  "build_two_setup e = hook_call e Build_two_setup
     ''_build_one_setup must be implemented by tests with two builds''"

subsection \<open>Collaborators\<close>

text \<open>
  Modelled from the spec: the methods of \<^verbatim>\<open>SystemTestsCommon\<close>, the case object and
  the logger are not part of the sources at hand. Each is a recorded call;
  \<^verbatim>\<open>_run\<close> and \<^verbatim>\<open>_component_compare_test\<close> return what the surroundings say.
\<close>

definition stage_saved_pes_file :: "string \<Rightarrow> unit action" where
  "stage_saved_pes_file suffix = record_call (Stage_saved_pes_file suffix)"

definition stage_saved_build_files :: "string \<Rightarrow> unit action" where
  "stage_saved_build_files suffix = record_call (Stage_saved_build_files suffix)"

definition load_staged_xml_files :: "bool \<Rightarrow> unit action" where
  "load_staged_xml_files modified_pes = record_call (Load_staged_xml_files modified_pes)"

definition save_build_files :: "string \<Rightarrow> unit action" where
  "save_build_files suffix = record_call (Save_build_files suffix)"

definition base_run :: "env \<Rightarrow> string \<Rightarrow> bool action" where
  "base_run e suffix = then_m (record_call (Run suffix)) (return_m (run_succeeds e suffix))"

definition component_compare_test :: "env \<Rightarrow> string \<Rightarrow> string \<Rightarrow> bool action" where
  "component_compare_test e suffix1 suffix2 =
     then_m (record_call (Component_compare_test suffix1 suffix2))
       (return_m (compare_succeeds e suffix1 suffix2))"

definition base_build :: "bool \<Rightarrow> bool \<Rightarrow> unit action" where
  "base_build sharedlib_only model_only = record_call (Common_build sharedlib_only model_only)"

definition logger_info :: "string \<Rightarrow> unit action" where
  "logger_info msg = record_call (Logger_info msg)"

definition case_flush :: "unit action" where
  "case_flush = record_call Case_flush"

definition case_read_xml :: "unit action" where
  "case_read_xml = record_call Case_read_xml"

text \<open>
  Modelled from the spec: the three helpers for saved XML files are not part of the
  sources at hand. A saved copy is the pair of a file's name and a suffix;
  \<^verbatim>\<open>saved_xml_file_exists\<close> asks whether it is there, \<^verbatim>\<open>save_xml_file\<close> creates it,
  and \<^verbatim>\<open>restore_or_save_xml_file\<close> restores it when it is there (and says so) and
  creates it otherwise.
\<close>

definition saved_xml_file_exists :: "string \<Rightarrow> string \<Rightarrow> bool action" where
  "saved_xml_file_exists xml_file suffix s = (Inr ((xml_file, suffix) \<in> set (saved_xml_files s)), s)"

definition save_xml_file :: "string \<Rightarrow> string \<Rightarrow> unit action" where
  "save_xml_file xml_file suffix s =
     (Inr (), s\<lparr>log := log s @ [Save_xml_file xml_file suffix],
               saved_xml_files := saved_xml_files s @ [(xml_file, suffix)]\<rparr>)"

definition restore_or_save_xml_file :: "string \<Rightarrow> string \<Rightarrow> bool action" where
  "restore_or_save_xml_file xml_file suffix s =
     (if (xml_file, suffix) \<in> set (saved_xml_files s)
      then (Inr True, s\<lparr>log := log s @ [Restore_or_save_xml_file xml_file suffix]\<rparr>)
      else (Inr False, s\<lparr>log := log s @ [Restore_or_save_xml_file xml_file suffix],
                         saved_xml_files := saved_xml_files s @ [(xml_file, suffix)]\<rparr>))"

subsection \<open>Private methods\<close>

definition needs_two_builds :: "bool \<Rightarrow> bool \<Rightarrow> bool action" where
  "needs_two_builds sharedlib_only model_only s =
     (if \<not> sharedlib_only \<and> \<not> model_only
      then return_m (two_builds_for_sharedlib s \<or> two_builds_for_model s) s
      else if sharedlib_only then return_m (two_builds_for_sharedlib s) s
      else if model_only then return_m (two_builds_for_model s) s
      else raise_m (ValueError ''Invalid for both sharedlib_only and model_only to be set'') s)"

definition has_two_executables :: "system_test \<Rightarrow> bool" where
  "has_two_executables s =
     (if two_builds_for_sharedlib s \<or> two_builds_for_model s then True else False)"

definition pre_build_restore_or_save_xml_files :: "unit action" where
  "pre_build_restore_or_save_xml_files =
     bind_m (\<lambda>s. (if runs_have_different_pe_settings s
                  then restore_or_save_xml_file ''env_mach_pes'' ORIGINAL_SUFFIX
                  else return_m False) s)
       (\<lambda>env_mach_pes_restored.
     bind_m (\<lambda>s. (if has_two_executables s
                  then restore_or_save_xml_file ''env_build'' ORIGINAL_SUFFIX
                  else return_m False) s)
       (\<lambda>env_build_restored.
     if env_mach_pes_restored \<or> env_build_restored then case_read_xml else return_m ()))"

definition create_pe_files :: "env \<Rightarrow> unit action" where
  "create_pe_files e =
     then_m
       (bind_m (\<lambda>s. saved_xml_file_exists ''env_mach_pes'' (run_one_suffix s) s)
          (\<lambda>exists1.
             if \<not> exists1
             then block [adjust_pes_for_run_one e,
                         case_flush,
                         (\<lambda>s. save_xml_file ''env_mach_pes'' (run_one_suffix s) s)]
             else return_m ()))
       (bind_m (\<lambda>s. saved_xml_file_exists ''env_mach_pes'' (run_two_suffix s) s)
          (\<lambda>exists2.
             if \<not> exists2
             then block [adjust_pes_for_run_two e,
                         case_flush,
                         (\<lambda>s. save_xml_file ''env_mach_pes'' (run_two_suffix s) s)]
             else return_m ()))"

definition do_two_builds :: "env \<Rightarrow> bool \<Rightarrow> bool \<Rightarrow> unit action" where
  "do_two_builds e sharedlib_only model_only =
     block [
       (\<lambda>s. (if runs_have_different_pe_settings s
              then block [stage_saved_pes_file (run_one_suffix s), load_staged_xml_files True]
              else return_m ()) s),
       build_one_setup e,
       base_build sharedlib_only model_only,
       (\<lambda>s. save_build_files (run_one_suffix s) s),
       (\<lambda>s. (if runs_have_different_pe_settings s
              then block [stage_saved_pes_file (run_two_suffix s), load_staged_xml_files True]
              else return_m ()) s),
       build_two_setup e,
       base_build sharedlib_only model_only,
       (\<lambda>s. save_build_files (run_two_suffix s) s)]"

subsection \<open>Main public methods\<close>

definition build :: "env \<Rightarrow> bool \<Rightarrow> bool \<Rightarrow> unit action" where
  "build e sharedlib_only model_only =
     then_m
       (block [
          pre_build_restore_or_save_xml_files,
          (\<lambda>s. (if runs_have_different_pe_settings s then create_pe_files e else return_m ()) s),
          pre_build e])
       (bind_m (needs_two_builds sharedlib_only model_only)
          (\<lambda>two_builds_needed.
             if two_builds_needed
             then do_two_builds e sharedlib_only model_only
             else block [
               (\<lambda>s. (if runs_have_different_pe_settings s
                      then block [stage_saved_pes_file (run_one_suffix s),
                                  load_staged_xml_files True]
                      else return_m ()) s),
               base_build sharedlib_only model_only]))"

definition set_status_run1 :: "string \<Rightarrow> unit action" where
  "set_status_run1 v s = (Inr (), s\<lparr>status_run1 := v\<rparr>)"

definition set_status_run2 :: "string \<Rightarrow> unit action" where
  "set_status_run2 v s = (Inr (), s\<lparr>status_run2 := v\<rparr>)"

definition set_status_compare :: "string \<Rightarrow> unit action" where
  "set_status_compare v s = (Inr (), s\<lparr>status_compare := v\<rparr>)"

definition run :: "env \<Rightarrow> bool action" where
  "run e =
     then_m
       (block [
          run_common_setup e,
          run_one_setup e,
          (\<lambda>s. (if runs_have_different_pe_settings s
                 then stage_saved_pes_file (run_one_suffix s) else return_m ()) s),
          (\<lambda>s. (if has_two_executables s
                 then stage_saved_build_files (run_one_suffix s) else return_m ()) s),
          (\<lambda>s. (if runs_have_different_pe_settings s \<or> has_two_executables s
                 then load_staged_xml_files (runs_have_different_pe_settings s)
                 else return_m ()) s),
          (\<lambda>s. logger_info (''Doing first run: '' @ run_one_description s) s)])
    (bind_m (\<lambda>s. base_run e (run_one_suffix s) s)
       (\<lambda>success.
     if success then
     then_m
       (block [
          set_status_run1 ''PASS'',
          run_common_setup e,
          run_two_setup e,
          (\<lambda>s. (if runs_have_different_pe_settings s
                 then stage_saved_pes_file (run_two_suffix s) else return_m ()) s),
          (\<lambda>s. (if has_two_executables s
                 then stage_saved_build_files (run_two_suffix s) else return_m ()) s),
          (\<lambda>s. (if runs_have_different_pe_settings s \<or> has_two_executables s
                 then load_staged_xml_files (runs_have_different_pe_settings s)
                 else return_m ()) s),
          (\<lambda>s. logger_info (''Doing second run: '' @ run_two_description s) s)])
    (bind_m (\<lambda>s. base_run e (run_two_suffix s) s)
       (\<lambda>success.
     if success then
     then_m (set_status_run2 ''PASS'')
    (bind_m (\<lambda>s. component_compare_test e (run_one_suffix s) (run_two_suffix s) s)
       (\<lambda>success.
     if success then then_m (set_status_compare ''PASS'') (return_m success)
     else then_m (set_status_compare ''FAIL'') (return_m False)))
     else then_m (set_status_run2 ''FAIL'') (return_m False)))
     else then_m (set_status_run1 ''FAIL'') (return_m False)))"

definition get_run_one_status :: "system_test \<Rightarrow> string" where
  "get_run_one_status s = status_run1 s"

definition get_run_two_status :: "system_test \<Rightarrow> string" where
  "get_run_two_status s = status_run2 s"

definition get_compare_status :: "system_test \<Rightarrow> string" where
  "get_compare_status s = status_compare s"

subsection \<open>Reading the log\<close>

text \<open>The calls made between a state and a later one.\<close>

definition new_calls :: "system_test \<Rightarrow> system_test \<Rightarrow> call list" where
  "new_calls s s' = drop (length (log s)) (log s')"

fun is_run :: "call \<Rightarrow> bool" where
  "is_run (Run suffix) = True"
| "is_run _ = False"

fun is_compare :: "call \<Rightarrow> bool" where
  "is_compare (Component_compare_test suffix1 suffix2) = True"
| "is_compare _ = False"

text \<open>Staging a saved layout file, staging saved build files, and the reload after them.\<close>

fun is_staging_or_reload :: "call \<Rightarrow> bool" where
  "is_staging_or_reload (Stage_saved_pes_file suffix) = True"
| "is_staging_or_reload (Stage_saved_build_files suffix) = True"
| "is_staging_or_reload (Load_staged_xml_files modified_pes) = True"
| "is_staging_or_reload _ = False"

fun is_common_build :: "call \<Rightarrow> bool" where
  "is_common_build (Common_build sharedlib_only model_only) = True"
| "is_common_build _ = False"

text \<open>
  The calls of the first two steps of \<^verbatim>\<open>build\<close>: restoring or saving the original
  files, and creating the layout file of each run.
\<close>

fun is_restore_or_pe_file_step :: "call \<Rightarrow> bool" where
  "is_restore_or_pe_file_step (Restore_or_save_xml_file xml_file suffix) = True"
| "is_restore_or_pe_file_step Case_read_xml = True"
| "is_restore_or_pe_file_step (Hook Adjust_pes_for_run_one) = True"
| "is_restore_or_pe_file_step (Hook Adjust_pes_for_run_two) = True"
| "is_restore_or_pe_file_step Case_flush = True"
| "is_restore_or_pe_file_step (Save_xml_file xml_file suffix) = True"
| "is_restore_or_pe_file_step _ = False"

text \<open>The calls of a build pass.\<close>

fun is_build_pass_step :: "call \<Rightarrow> bool" where
  "is_build_pass_step (Stage_saved_pes_file suffix) = True"
| "is_build_pass_step (Load_staged_xml_files modified_pes) = True"
| "is_build_pass_step (Hook Build_one_setup) = True"
| "is_build_pass_step (Hook Build_two_setup) = True"
| "is_build_pass_step (Common_build sharedlib_only model_only) = True"
| "is_build_pass_step (Save_build_files suffix) = True"
| "is_build_pass_step _ = False"

text \<open>
  The calls that precede the execution of a run with the given suffix, after the
  setup hooks: what \<^verbatim>\<open>run\<close> stages and reloads under the flags of the test.
\<close>

definition staging :: "system_test \<Rightarrow> string \<Rightarrow> call list" where
  "staging s suffix =
     (if runs_have_different_pe_settings s then [Stage_saved_pes_file suffix] else []) @
     (if two_builds_for_sharedlib s \<or> two_builds_for_model s
      then [Stage_saved_build_files suffix] else []) @
     (if runs_have_different_pe_settings s \<or> two_builds_for_sharedlib s \<or> two_builds_for_model s
      then [Load_staged_xml_files (runs_have_different_pe_settings s)] else [])"

text \<open>
  Two states of one test: the flags and suffixes agree, and no saved file has been
  removed. A step grows the log by calls of one kind.
\<close>

definition same_config :: "system_test \<Rightarrow> system_test \<Rightarrow> bool" where
  "same_config s s' \<longleftrightarrow>
     runs_have_different_pe_settings s' = runs_have_different_pe_settings s \<and>
     two_builds_for_sharedlib s' = two_builds_for_sharedlib s \<and>
     two_builds_for_model s' = two_builds_for_model s \<and>
     run_one_suffix s' = run_one_suffix s \<and>
     run_two_suffix s' = run_two_suffix s \<and>
     set (saved_xml_files s) \<subseteq> set (saved_xml_files s')"

definition grows :: "(call \<Rightarrow> bool) \<Rightarrow> system_test \<Rightarrow> system_test \<Rightarrow> bool" where
  "grows P s s' \<longleftrightarrow>
     same_config s s' \<and> log s' = log s @ new_calls s s' \<and> list_all P (new_calls s s')"

text \<open>
  The part of \<^verbatim>\<open>build\<close> that follows the call of \<^verbatim>\<open>_pre_build\<close>, under a name of
  its own for the proofs.
\<close>

definition build_passes :: "env \<Rightarrow> bool \<Rightarrow> bool \<Rightarrow> unit action" where
  "build_passes e sharedlib_only model_only =
     bind_m (needs_two_builds sharedlib_only model_only)
       (\<lambda>two_builds_needed.
          if two_builds_needed
          then do_two_builds e sharedlib_only model_only
          else block [
            (\<lambda>s. (if runs_have_different_pe_settings s
                   then block [stage_saved_pes_file (run_one_suffix s),
                               load_staged_xml_files True]
                   else return_m ()) s),
            base_build sharedlib_only model_only])"

text \<open>
  Surroundings in the manner of the fake of the unit tests: every hook is overridden,
  \<^verbatim>\<open>_run\<close> passes for the suffixes listed, and the comparison passes or fails as
  told.
\<close>

definition fake_env :: "string list \<Rightarrow> bool \<Rightarrow> env" where
  "fake_env run_pass_suffixes compare_should_pass =
     \<lparr>overrides = (\<lambda>h. True),
      run_succeeds = (\<lambda>suffix. suffix \<in> set run_pass_suffixes),
      compare_succeeds = (\<lambda>suffix1 suffix2. compare_should_pass)\<rparr>"

section \<open>Properties\<close>

lemmas monad_defs = return_m_def raise_m_def bind_m_def then_m_def record_call_def

lemmas hook_defs = hook_call_def run_common_setup_def run_one_setup_def run_two_setup_def
  pre_build_def adjust_pes_for_run_one_def adjust_pes_for_run_two_def build_one_setup_def
  build_two_setup_def

lemmas collab_defs = stage_saved_pes_file_def stage_saved_build_files_def
  load_staged_xml_files_def save_build_files_def base_run_def component_compare_test_def
  base_build_def logger_info_def case_flush_def case_read_xml_def saved_xml_file_exists_def
  save_xml_file_def restore_or_save_xml_file_def

lemmas status_defs = set_status_run1_def set_status_run2_def set_status_compare_def
  get_run_one_status_def get_run_two_status_def get_compare_status_def

lemmas init_defs = init_def Let_def rstrip_def isspace_def expect_def ORIGINAL_SUFFIX_def
  quoted_def

subsection \<open>The log, result and statuses of \<^verbatim>\<open>run\<close>\<close>

lemma run_log:
  assumes "overrides e Run_common_setup" "overrides e Run_one_setup" "overrides e Run_two_setup"
  shows "log (snd (run e s)) = log s @
     [Hook Run_common_setup, Hook Run_one_setup] @ staging s (run_one_suffix s) @
     [Logger_info (''Doing first run: '' @ run_one_description s), Run (run_one_suffix s)] @
     (if run_succeeds e (run_one_suffix s) then
        [Hook Run_common_setup, Hook Run_two_setup] @ staging s (run_two_suffix s) @
        [Logger_info (''Doing second run: '' @ run_two_description s), Run (run_two_suffix s)] @
        (if run_succeeds e (run_two_suffix s)
         then [Component_compare_test (run_one_suffix s) (run_two_suffix s)] else [])
      else [])"
  using assms
  by (simp add: run_def monad_defs hook_defs collab_defs staging_def has_two_executables_def
        status_defs)

lemma run_new_calls:
  assumes "overrides e Run_common_setup" "overrides e Run_one_setup" "overrides e Run_two_setup"
  shows "new_calls s (snd (run e s)) =
     [Hook Run_common_setup, Hook Run_one_setup] @ staging s (run_one_suffix s) @
     [Logger_info (''Doing first run: '' @ run_one_description s), Run (run_one_suffix s)] @
     (if run_succeeds e (run_one_suffix s) then
        [Hook Run_common_setup, Hook Run_two_setup] @ staging s (run_two_suffix s) @
        [Logger_info (''Doing second run: '' @ run_two_description s), Run (run_two_suffix s)] @
        (if run_succeeds e (run_two_suffix s)
         then [Component_compare_test (run_one_suffix s) (run_two_suffix s)] else [])
      else [])"
  unfolding new_calls_def run_log [OF assms] by simp

lemma staging_no_run [simp]: "filter is_run (staging s suffix) = []"
  by (simp add: staging_def)

lemma staging_no_compare [simp]: "filter is_compare (staging s suffix) = []"
  by (simp add: staging_def)

lemma staging_no_hook [simp]: "Hook h \<notin> set (staging s suffix)"
  by (simp add: staging_def)

lemma run_result:
  assumes "overrides e Run_common_setup" "overrides e Run_one_setup" "overrides e Run_two_setup"
  shows "fst (run e s) =
           Inr (run_succeeds e (run_one_suffix s) \<and> run_succeeds e (run_two_suffix s) \<and>
                compare_succeeds e (run_one_suffix s) (run_two_suffix s))"
  using assms
  by (simp add: run_def monad_defs hook_defs collab_defs has_two_executables_def status_defs)

lemma run_statuses:
  assumes "overrides e Run_common_setup" "overrides e Run_one_setup" "overrides e Run_two_setup"
  shows "status_run1 (snd (run e s)) =
           (if run_succeeds e (run_one_suffix s) then ''PASS'' else ''FAIL'')"
    and "status_run2 (snd (run e s)) =
           (if run_succeeds e (run_one_suffix s)
            then (if run_succeeds e (run_two_suffix s) then ''PASS'' else ''FAIL'')
            else status_run2 s)"
    and "status_compare (snd (run e s)) =
           (if run_succeeds e (run_one_suffix s) \<and> run_succeeds e (run_two_suffix s)
            then (if compare_succeeds e (run_one_suffix s) (run_two_suffix s)
                  then ''PASS'' else ''FAIL'')
            else status_compare s)"
  using assms
  by (simp_all add: run_def monad_defs hook_defs collab_defs has_two_executables_def status_defs)

text \<open>
  C1. Let the test override the three hooks that every test must override. Whatever
  the flags and whatever the outcomes of the two executions and of the comparison:
  \<^verbatim>\<open>run\<close> executes the second phase exactly when the execution of the first
  succeeded, and calls the comparison exactly when both executions succeeded. When
  the first execution fails \<^verbatim>\<open>run\<close> returns false at once: the calls it made are
  the setup, staging and execution of the first phase and nothing else, and the
  statuses of the second run and of the comparison are untouched. When the second
  execution fails, that execution is the last call, the status of the comparison is
  untouched and \<^verbatim>\<open>run\<close> returns false.
\<close>

theorem run_short_circuit:
  assumes "overrides e Run_common_setup" and "overrides e Run_one_setup"
    and "overrides e Run_two_setup"
  shows "filter is_run (new_calls s (snd (run e s))) =
           (if run_succeeds e (run_one_suffix s)
            then [Run (run_one_suffix s), Run (run_two_suffix s)]
            else [Run (run_one_suffix s)]) \<and>
         filter is_compare (new_calls s (snd (run e s))) =
           (if run_succeeds e (run_one_suffix s) \<and> run_succeeds e (run_two_suffix s)
            then [Component_compare_test (run_one_suffix s) (run_two_suffix s)]
            else []) \<and>
         (\<not> run_succeeds e (run_one_suffix s) \<longrightarrow>
            new_calls s (snd (run e s)) =
              [Hook Run_common_setup, Hook Run_one_setup] @ staging s (run_one_suffix s) @
              [Logger_info (''Doing first run: '' @ run_one_description s),
               Run (run_one_suffix s)] \<and>
            Hook Run_two_setup \<notin> set (new_calls s (snd (run e s))) \<and>
            status_run2 (snd (run e s)) = status_run2 s \<and>
            status_compare (snd (run e s)) = status_compare s \<and>
            fst (run e s) = Inr False) \<and>
         (run_succeeds e (run_one_suffix s) \<and> \<not> run_succeeds e (run_two_suffix s) \<longrightarrow>
            last (new_calls s (snd (run e s))) = Run (run_two_suffix s) \<and>
            status_compare (snd (run e s)) = status_compare s \<and>
            fst (run e s) = Inr False)"
  by (simp add: run_new_calls [OF assms] run_result [OF assms] run_statuses [OF assms])

theorem run_short_circuit_witness:
  "(let e = fake_env [''run2''] True; s = projr (init [] False True False ''run2'' [] []) in
    overrides e Run_common_setup \<and> overrides e Run_one_setup \<and> overrides e Run_two_setup \<and>
    \<not> run_succeeds e (run_one_suffix s) \<and>
    filter is_run (new_calls s (snd (run e s))) = [Run ''base''] \<and>
    filter is_compare (new_calls s (snd (run e s))) = [] \<and>
    new_calls s (snd (run e s)) =
      [Hook Run_common_setup, Hook Run_one_setup, Stage_saved_build_files ''base'',
       Load_staged_xml_files False, Logger_info ''Doing first run: '', Run ''base''] \<and>
    fst (run e s) = Inr False)"
  using run_short_circuit [of "fake_env [''run2''] True"
       "projr (init [] False True False ''run2'' [] [])"]
  by (simp add: fake_env_def init_defs staging_def)

text \<open>
  C2. Let the test override the three required hooks, and let the statuses of the
  second run and of the comparison be \<^verbatim>\<open>NOT RUN\<close>, as the constructor leaves them.
  Then \<^verbatim>\<open>run\<close> returns true exactly when both executions and the comparison
  succeed, and afterwards the three accessors report (FAIL, NOT RUN, NOT RUN) when
  the first execution fails, (PASS, FAIL, NOT RUN) when only the second fails,
  (PASS, PASS, FAIL) when only the comparison fails, and (PASS, PASS, PASS) when all
  three succeed.
\<close>

theorem run_result_and_statuses:
  assumes "overrides e Run_common_setup" and "overrides e Run_one_setup"
    and "overrides e Run_two_setup"
    and "status_run2 s = ''NOT RUN''" and "status_compare s = ''NOT RUN''"
  shows "fst (run e s) =
           Inr (run_succeeds e (run_one_suffix s) \<and> run_succeeds e (run_two_suffix s) \<and>
                compare_succeeds e (run_one_suffix s) (run_two_suffix s)) \<and>
         (get_run_one_status (snd (run e s)), get_run_two_status (snd (run e s)),
          get_compare_status (snd (run e s))) =
           (if \<not> run_succeeds e (run_one_suffix s) then (''FAIL'', ''NOT RUN'', ''NOT RUN'')
            else if \<not> run_succeeds e (run_two_suffix s) then (''PASS'', ''FAIL'', ''NOT RUN'')
            else if \<not> compare_succeeds e (run_one_suffix s) (run_two_suffix s)
            then (''PASS'', ''PASS'', ''FAIL'')
            else (''PASS'', ''PASS'', ''PASS''))"
  using assms(4,5)
  by (simp add: run_result [OF assms(1-3)] run_statuses [OF assms(1-3)]
        get_run_one_status_def get_run_two_status_def get_compare_status_def)

theorem run_result_and_statuses_witness:
  "(let e = fake_env [''base'', ''test''] False;
        s = projr (init [] False False False ''test'' [] []) in
    overrides e Run_common_setup \<and> overrides e Run_one_setup \<and> overrides e Run_two_setup \<and>
    status_run2 s = ''NOT RUN'' \<and> status_compare s = ''NOT RUN'' \<and>
    fst (run e s) = Inr False \<and>
    (get_run_one_status (snd (run e s)), get_run_two_status (snd (run e s)),
     get_compare_status (snd (run e s))) = (''PASS'', ''PASS'', ''FAIL''))"
  using run_result_and_statuses [of "fake_env [''base'', ''test''] False"
       "projr (init [] False False False ''test'' [] [])"]
  by (simp add: fake_env_def init_defs)

text \<open>
  C7. Let the test override the three required hooks, with both two-build flags and
  the different-PE-settings flag false. Then \<^verbatim>\<open>run\<close> stages no layout file, stages
  no build files and reloads nothing. It executes the first phase once, under the
  first suffix, and, when that passes, the second phase once, under the second
  suffix; when both pass it calls the comparison once. The whole sequence of calls
  is the one the unit tests expect.
\<close>

theorem run_without_staging:
  assumes "overrides e Run_common_setup" and "overrides e Run_one_setup"
    and "overrides e Run_two_setup"
    and "\<not> two_builds_for_sharedlib s" and "\<not> two_builds_for_model s"
    and "\<not> runs_have_different_pe_settings s"
  shows "filter is_staging_or_reload (new_calls s (snd (run e s))) = [] \<and>
         filter is_run (new_calls s (snd (run e s))) =
           (if run_succeeds e (run_one_suffix s)
            then [Run (run_one_suffix s), Run (run_two_suffix s)]
            else [Run (run_one_suffix s)]) \<and>
         (run_succeeds e (run_one_suffix s) \<and> run_succeeds e (run_two_suffix s) \<longrightarrow>
            filter is_compare (new_calls s (snd (run e s))) =
              [Component_compare_test (run_one_suffix s) (run_two_suffix s)]) \<and>
         new_calls s (snd (run e s)) =
           [Hook Run_common_setup, Hook Run_one_setup,
            Logger_info (''Doing first run: '' @ run_one_description s),
            Run (run_one_suffix s)] @
           (if run_succeeds e (run_one_suffix s) then
              [Hook Run_common_setup, Hook Run_two_setup,
               Logger_info (''Doing second run: '' @ run_two_description s),
               Run (run_two_suffix s)] @
              (if run_succeeds e (run_two_suffix s)
               then [Component_compare_test (run_one_suffix s) (run_two_suffix s)] else [])
            else [])"
  using assms(4-6) by (simp add: run_new_calls [OF assms(1-3)] staging_def)

theorem run_without_staging_witness:
  "(let e = fake_env [''base'', ''run2''] True;
        s = projr (init [] False False False ''run2'' [] []) in
    overrides e Run_common_setup \<and> overrides e Run_one_setup \<and> overrides e Run_two_setup \<and>
    \<not> two_builds_for_sharedlib s \<and> \<not> two_builds_for_model s \<and>
    \<not> runs_have_different_pe_settings s \<and>
    filter is_staging_or_reload (new_calls s (snd (run e s))) = [] \<and>
    new_calls s (snd (run e s)) =
      [Hook Run_common_setup, Hook Run_one_setup, Logger_info ''Doing first run: '',
       Run ''base'',
       Hook Run_common_setup, Hook Run_two_setup, Logger_info ''Doing second run: '',
       Run ''run2'',
       Component_compare_test ''base'' ''run2''])"
  using run_without_staging [of "fake_env [''base'', ''run2''] True"
       "projr (init [] False False False ''run2'' [] [])"]
  by (simp add: fake_env_def init_defs)

text \<open>
  C8. Let the test override the three required hooks. When the runs do not differ in
  their PE settings and some build is done twice, \<^verbatim>\<open>run\<close> stages before each
  execution the build files saved under that phase's suffix, and only them, and
  then reloads with \<^verbatim>\<open>modified_pes\<close> false. When the runs differ in their PE
  settings it stages the layout file saved under that phase's suffix (and the build
  files too when some build is done twice) and then reloads with
  \<^verbatim>\<open>modified_pes\<close> true. No reload is ever issued with the other value of
  \<^verbatim>\<open>modified_pes\<close>, and nothing is staged or reloaded exactly when all three flags
  are false.
\<close>

theorem run_staging_and_reload:
  assumes "overrides e Run_common_setup" and "overrides e Run_one_setup"
    and "overrides e Run_two_setup"
  shows "(\<not> runs_have_different_pe_settings s \<and>
          (two_builds_for_sharedlib s \<or> two_builds_for_model s) \<longrightarrow>
            new_calls s (snd (run e s)) =
              [Hook Run_common_setup, Hook Run_one_setup,
               Stage_saved_build_files (run_one_suffix s), Load_staged_xml_files False,
               Logger_info (''Doing first run: '' @ run_one_description s),
               Run (run_one_suffix s)] @
              (if run_succeeds e (run_one_suffix s) then
                 [Hook Run_common_setup, Hook Run_two_setup,
                  Stage_saved_build_files (run_two_suffix s), Load_staged_xml_files False,
                  Logger_info (''Doing second run: '' @ run_two_description s),
                  Run (run_two_suffix s)] @
                 (if run_succeeds e (run_two_suffix s)
                  then [Component_compare_test (run_one_suffix s) (run_two_suffix s)] else [])
               else [])) \<and>
         (runs_have_different_pe_settings s \<longrightarrow>
            new_calls s (snd (run e s)) =
              [Hook Run_common_setup, Hook Run_one_setup,
               Stage_saved_pes_file (run_one_suffix s)] @
              (if two_builds_for_sharedlib s \<or> two_builds_for_model s
               then [Stage_saved_build_files (run_one_suffix s)] else []) @
              [Load_staged_xml_files True,
               Logger_info (''Doing first run: '' @ run_one_description s),
               Run (run_one_suffix s)] @
              (if run_succeeds e (run_one_suffix s) then
                 [Hook Run_common_setup, Hook Run_two_setup,
                  Stage_saved_pes_file (run_two_suffix s)] @
                 (if two_builds_for_sharedlib s \<or> two_builds_for_model s
                  then [Stage_saved_build_files (run_two_suffix s)] else []) @
                 [Load_staged_xml_files True,
                  Logger_info (''Doing second run: '' @ run_two_description s),
                  Run (run_two_suffix s)] @
                 (if run_succeeds e (run_two_suffix s)
                  then [Component_compare_test (run_one_suffix s) (run_two_suffix s)] else [])
               else [])) \<and>
         Load_staged_xml_files (\<not> runs_have_different_pe_settings s)
           \<notin> set (new_calls s (snd (run e s))) \<and>
         (filter is_staging_or_reload (new_calls s (snd (run e s))) = [] \<longleftrightarrow>
            \<not> (runs_have_different_pe_settings s \<or> two_builds_for_sharedlib s \<or>
               two_builds_for_model s))"
  by (simp add: run_new_calls [OF assms(1-3)] staging_def)

theorem run_staging_and_reload_witness:
  "(let e = fake_env [''base'', ''run2''] True;
        s1 = projr (init [] False True False ''run2'' [] []);
        s2 = projr (init [] False False True ''run2'' [] []) in
    overrides e Run_common_setup \<and> overrides e Run_one_setup \<and> overrides e Run_two_setup \<and>
    \<not> runs_have_different_pe_settings s1 \<and> two_builds_for_model s1 \<and>
    runs_have_different_pe_settings s2 \<and>
    new_calls s1 (snd (run e s1)) =
      [Hook Run_common_setup, Hook Run_one_setup,
       Stage_saved_build_files ''base'', Load_staged_xml_files False,
       Logger_info ''Doing first run: '', Run ''base'',
       Hook Run_common_setup, Hook Run_two_setup,
       Stage_saved_build_files ''run2'', Load_staged_xml_files False,
       Logger_info ''Doing second run: '', Run ''run2'',
       Component_compare_test ''base'' ''run2''] \<and>
    new_calls s2 (snd (run e s2)) =
      [Hook Run_common_setup, Hook Run_one_setup,
       Stage_saved_pes_file ''base'', Load_staged_xml_files True,
       Logger_info ''Doing first run: '', Run ''base'',
       Hook Run_common_setup, Hook Run_two_setup,
       Stage_saved_pes_file ''run2'', Load_staged_xml_files True,
       Logger_info ''Doing second run: '', Run ''run2'',
       Component_compare_test ''base'' ''run2''])"
  using run_staging_and_reload [of "fake_env [''base'', ''run2''] True"
       "projr (init [] False True False ''run2'' [] [])"]
    run_staging_and_reload [of "fake_env [''base'', ''run2''] True"
       "projr (init [] False False True ''run2'' [] [])"]
  by (simp add: fake_env_def init_defs)

subsection \<open>The constructor\<close>

lemma rstrip_base [simp]: "rstrip ''base'' = ''base''"
  by (simp add: rstrip_def isspace_def)

lemma rstrip_original [simp]: "rstrip ''original'' = ''original''"
  by (simp add: rstrip_def isspace_def)

lemma init_cases:
  "init saved tbs tbm pe suffix d1 d2 =
     (if rstrip suffix = ''base''
      then Inl (ConfigurationError ''ERROR: Must have different suffixes for run one and run two'')
      else if rstrip suffix = ''original''
      then Inl (ConfigurationError (''ERROR: Run two suffix cannot be '' @ quoted ''original''))
      else Inr \<lparr> runs_have_different_pe_settings = pe,
              two_builds_for_sharedlib = tbs,
              two_builds_for_model = tbm,
              run_one_suffix = ''base'',
              run_two_suffix = rstrip suffix,
              run_one_description = d1,
              run_two_description = d2,
              status_run1 = ''NOT RUN'',
              status_run2 = ''NOT RUN'',
              status_compare = ''NOT RUN'',
              log = [],
              saved_xml_files = saved \<rparr>)"
  by (simp add: init_def expect_def ORIGINAL_SUFFIX_def)

text \<open>
  C3, as amended. For every \<^verbatim>\<open>run_two_suffix\<close>, the constructor raises a
  configuration error exactly when the suffix with its trailing whitespace removed
  is \<^verbatim>\<open>base\<close> or \<^verbatim>\<open>original\<close>; in particular when the suffix itself is one of
  the two. For every other suffix the construction succeeds and leaves the three
  statuses at \<^verbatim>\<open>NOT RUN\<close>.
\<close>

theorem init_configuration_error:
  "((\<exists>msg. init saved tbs tbm pe suffix d1 d2 = Inl (ConfigurationError msg)) \<longleftrightarrow>
      rstrip suffix = ''base'' \<or> rstrip suffix = ''original'') \<and>
   (suffix = ''base'' \<or> suffix = ''original'' \<longrightarrow>
      (\<exists>msg. init saved tbs tbm pe suffix d1 d2 = Inl (ConfigurationError msg))) \<and>
   (rstrip suffix \<noteq> ''base'' \<and> rstrip suffix \<noteq> ''original'' \<longrightarrow>
      (\<exists>s. init saved tbs tbm pe suffix d1 d2 = Inr s \<and>
           get_run_one_status s = ''NOT RUN'' \<and> get_run_two_status s = ''NOT RUN'' \<and>
           get_compare_status s = ''NOT RUN''))"
  by (auto simp add: init_cases status_defs)

theorem init_configuration_error_witness:
  "(rstrip ''original   '' = ''base'' \<or> rstrip ''original   '' = ''original'') \<and>
   (\<exists>msg. init [] False False False ''original   '' [] [] = Inl (ConfigurationError msg)) \<and>
   (''base'' = ''base'' \<or> ''base'' = ''original'') \<and>
   (\<exists>msg. init [] False False False ''base'' [] [] = Inl (ConfigurationError msg)) \<and>
   rstrip ''test'' \<noteq> ''base'' \<and> rstrip ''test'' \<noteq> ''original'' \<and>
   (\<exists>s. init [] False False False ''test'' [] [] = Inr s \<and>
        get_run_one_status s = ''NOT RUN'' \<and> get_run_two_status s = ''NOT RUN'' \<and>
        get_compare_status s = ''NOT RUN'')"
proof -
  have a: "rstrip ''original   '' = ''base'' \<or> rstrip ''original   '' = ''original''"
    by (simp add: rstrip_def isspace_def)
  have b: "rstrip ''test'' \<noteq> ''base'' \<and> rstrip ''test'' \<noteq> ''original''"
    by (simp add: rstrip_def isspace_def)
  show ?thesis
    using a b
      init_configuration_error [of "[]" False False False "''original   ''" "[]" "[]"]
      init_configuration_error [of "[]" False False False "''base''" "[]" "[]"]
      init_configuration_error [of "[]" False False False "''test''" "[]" "[]"]
    by simp
qed

text \<open>
  C3 as it was stated fails: \<^verbatim>\<open>base\<close> followed by a space is neither \<^verbatim>\<open>base\<close>
  nor \<^verbatim>\<open>original\<close>, and the constructor rejects it.
\<close>

theorem init_other_suffix_counterexample:
  "''base '' \<noteq> ''base'' \<and> ''base '' \<noteq> ''original'' \<and>
   init [] False False False ''base '' [] [] =
     Inl (ConfigurationError ''ERROR: Must have different suffixes for run one and run two'')"
  by (simp add: init_defs)

text \<open>
  C10. The constructor strips the trailing whitespace of \<^verbatim>\<open>run_two_suffix\<close> before
  it checks and stores it. Whenever the stripped suffix is \<^verbatim>\<open>base\<close> or
  \<^verbatim>\<open>original\<close> the construction fails with a configuration error. Whenever it
  succeeds, the stored suffix of the second run is the stripped one, and a later
  \<^verbatim>\<open>run\<close> stages, executes and compares under the stripped suffix.
\<close>

theorem init_rstrip:
  "(rstrip suffix = ''base'' \<or> rstrip suffix = ''original'' \<longrightarrow>
      (\<exists>msg. init saved tbs tbm pe suffix d1 d2 = Inl (ConfigurationError msg))) \<and>
   (\<forall>s. init saved tbs tbm pe suffix d1 d2 = Inr s \<longrightarrow>
      run_two_suffix s = rstrip suffix \<and>
      (\<forall>e. overrides e Run_common_setup \<and> overrides e Run_one_setup \<and>
           overrides e Run_two_setup \<and> run_succeeds e ''base'' \<longrightarrow>
           new_calls s (snd (run e s)) =
             [Hook Run_common_setup, Hook Run_one_setup] @ staging s ''base'' @
             [Logger_info (''Doing first run: '' @ d1), Run ''base''] @
             [Hook Run_common_setup, Hook Run_two_setup] @ staging s (rstrip suffix) @
             [Logger_info (''Doing second run: '' @ d2), Run (rstrip suffix)] @
             (if run_succeeds e (rstrip suffix)
              then [Component_compare_test ''base'' (rstrip suffix)] else [])))"
  by (auto simp add: init_cases run_new_calls)

theorem init_rstrip_witness:
  "(rstrip ''base '' = ''base'' \<or> rstrip ''base '' = ''original'') \<and>
   (\<exists>msg. init [] False False False ''base '' [] [] = Inl (ConfigurationError msg)) \<and>
   (rstrip (''original'' @ [CHR 0x0A]) = ''base'' \<or>
    rstrip (''original'' @ [CHR 0x0A]) = ''original'') \<and>
   (\<exists>msg. init [] False False False (''original'' @ [CHR 0x0A]) [] [] =
      Inl (ConfigurationError msg)) \<and>
   (\<exists>s. init [] False True False ''run2  '' [] [] = Inr s \<and>
        run_two_suffix s = ''run2'' \<and>
        run_two_suffix s \<noteq> ''run2  '' \<and>
        overrides (fake_env [''base''] True) Run_common_setup \<and>
        overrides (fake_env [''base''] True) Run_one_setup \<and>
        overrides (fake_env [''base''] True) Run_two_setup \<and>
        run_succeeds (fake_env [''base''] True) ''base'' \<and>
        new_calls s (snd (run (fake_env [''base''] True) s)) =
          [Hook Run_common_setup, Hook Run_one_setup,
           Stage_saved_build_files ''base'', Load_staged_xml_files False,
           Logger_info ''Doing first run: '', Run ''base'',
           Hook Run_common_setup, Hook Run_two_setup,
           Stage_saved_build_files ''run2'', Load_staged_xml_files False,
           Logger_info ''Doing second run: '', Run ''run2''])"
proof -
  have a: "rstrip ''base '' = ''base''"
    by (simp add: rstrip_def isspace_def)
  have b: "rstrip (''original'' @ [CHR 0x0A]) = ''original''"
    by (simp add: rstrip_def isspace_def)
  have c: "rstrip ''run2  '' = ''run2''"
    by (simp add: rstrip_def isspace_def)
  have d: "init [] False True False ''run2  '' [] [] =
     Inr (projr (init [] False True False ''run2  '' [] []))"
    by (simp add: init_cases c)
  show ?thesis
    using a b c d
      init_rstrip [of "''base ''" "[]" False False False "[]" "[]"]
      init_rstrip [of "''original'' @ [CHR 0x0A]" "[]" False False False "[]" "[]"]
      init_rstrip [of "''run2  ''" "[]" False True False "[]" "[]"]
    by (simp add: fake_env_def init_cases staging_def)
qed

subsection \<open>The scope of a build\<close>

lemma needs_two_builds_eq:
  "needs_two_builds sl mo s =
     (Inr (if \<not> sl \<and> \<not> mo then two_builds_for_sharedlib s \<or> two_builds_for_model s
           else if sl then two_builds_for_sharedlib s else two_builds_for_model s), s)"
  by (simp add: needs_two_builds_def return_m_def)

text \<open>
  C4. The claim is that \<^verbatim>\<open>build\<close> with both \<^verbatim>\<open>sharedlib_only\<close> and
  \<^verbatim>\<open>model_only\<close> true raises the error for an invalid scope. The code does not: in
  \<^verbatim>\<open>_needs_two_builds\<close> the branch for \<^verbatim>\<open>sharedlib_only\<close> comes before the
  branch that raises and takes the case in which both are set. For a test with all
  flags false, \<^verbatim>\<open>_needs_two_builds\<close> returns false and \<^verbatim>\<open>build\<close> goes on to call
  the build of the base class with both arguments true.
\<close>

theorem build_both_scopes_no_error:
  "needs_two_builds True True (projr (init [] False False False ''test'' [] [])) =
     (Inr False, projr (init [] False False False ''test'' [] [])) \<and>
   fst (build (fake_env [] True) True True (projr (init [] False False False ''test'' [] [])))
     = Inr () \<and>
   log (snd (build (fake_env [] True) True True
              (projr (init [] False False False ''test'' [] [])))) =
     [Hook Pre_build, Common_build True True]"
  by (simp add: init_defs build_def needs_two_builds_def
        pre_build_restore_or_save_xml_files_def has_two_executables_def
        monad_defs hook_defs collab_defs)

subsection \<open>The steps of \<^verbatim>\<open>build\<close>\<close>

lemma restore_grows:
  "fst (pre_build_restore_or_save_xml_files s) = Inr () \<and>
   grows is_restore_or_pe_file_step s (snd (pre_build_restore_or_save_xml_files s))"
  by (simp add: pre_build_restore_or_save_xml_files_def has_two_executables_def
        grows_def same_config_def new_calls_def monad_defs collab_defs subset_insertI2)

lemma restore_no_hook:
  "Hook h \<notin> set (new_calls s (snd (pre_build_restore_or_save_xml_files s)))"
  by (simp add: pre_build_restore_or_save_xml_files_def has_two_executables_def
        new_calls_def monad_defs collab_defs)

lemma create_pe_files_grows:
  assumes "overrides e Adjust_pes_for_run_one" "overrides e Adjust_pes_for_run_two"
  shows "fst (create_pe_files e s) = Inr () \<and>
   grows is_restore_or_pe_file_step s (snd (create_pe_files e s)) \<and>
   (''env_mach_pes'', run_one_suffix s) \<in> set (saved_xml_files (snd (create_pe_files e s))) \<and>
   (''env_mach_pes'', run_two_suffix s) \<in> set (saved_xml_files (snd (create_pe_files e s)))"
  using assms
  by (simp add: create_pe_files_def subset_insertI2
        grows_def same_config_def new_calls_def monad_defs hook_defs collab_defs)

lemma create_pe_files_calls:
  assumes "overrides e Adjust_pes_for_run_one" "overrides e Adjust_pes_for_run_two"
  shows "new_calls s (snd (create_pe_files e s)) =
     (if (''env_mach_pes'', run_one_suffix s) \<in> set (saved_xml_files s) then []
      else [Hook Adjust_pes_for_run_one, Case_flush,
            Save_xml_file ''env_mach_pes'' (run_one_suffix s)]) @
     (if (''env_mach_pes'', run_two_suffix s) \<in> set (saved_xml_files s) \<or>
         run_two_suffix s = run_one_suffix s then []
      else [Hook Adjust_pes_for_run_two, Case_flush,
            Save_xml_file ''env_mach_pes'' (run_two_suffix s)])"
  using assms
  by (auto simp add: create_pe_files_def new_calls_def monad_defs hook_defs collab_defs)

lemma create_pe_files_existing:
  assumes "(''env_mach_pes'', run_one_suffix s) \<in> set (saved_xml_files s)"
    and "(''env_mach_pes'', run_two_suffix s) \<in> set (saved_xml_files s)"
  shows "create_pe_files e s = (Inr (), s)"
  using assms
  by (simp add: create_pe_files_def monad_defs collab_defs)

lemma create_pe_files_skips_one:
  assumes "(''env_mach_pes'', run_one_suffix s) \<in> set (saved_xml_files s)"
  shows "Hook Adjust_pes_for_run_one \<notin> set (new_calls s (snd (create_pe_files e s))) \<and>
         Save_xml_file ''env_mach_pes'' (run_one_suffix s)
           \<notin> set (new_calls s (snd (create_pe_files e s))) \<and>
         length (filter ((=) Case_flush) (new_calls s (snd (create_pe_files e s)))) \<le>
           (if (''env_mach_pes'', run_two_suffix s) \<in> set (saved_xml_files s) then 0 else 1)"
  using assms
  by (auto simp add: create_pe_files_def new_calls_def monad_defs hook_defs collab_defs)

lemma create_pe_files_skips_two:
  assumes "(''env_mach_pes'', run_two_suffix s) \<in> set (saved_xml_files s)"
  shows "Hook Adjust_pes_for_run_two \<notin> set (new_calls s (snd (create_pe_files e s))) \<and>
         Save_xml_file ''env_mach_pes'' (run_two_suffix s)
           \<notin> set (new_calls s (snd (create_pe_files e s))) \<and>
         length (filter ((=) Case_flush) (new_calls s (snd (create_pe_files e s)))) \<le>
           (if (''env_mach_pes'', run_one_suffix s) \<in> set (saved_xml_files s) then 0 else 1)"
  using assms
  by (auto simp add: create_pe_files_def new_calls_def monad_defs hook_defs collab_defs)

lemma build_passes_two:
  assumes "fst (needs_two_builds sl mo s) = Inr True"
  shows "build_passes e sl mo s = do_two_builds e sl mo s"
  using assms by (simp add: build_passes_def needs_two_builds_eq bind_m_def split: if_splits)

lemma build_passes_one:
  assumes "fst (needs_two_builds sl mo s) \<noteq> Inr True"
  shows "build_passes e sl mo s =
           (Inr (), s\<lparr>log := log s @
              (if runs_have_different_pe_settings s
               then [Stage_saved_pes_file (run_one_suffix s), Load_staged_xml_files True]
               else []) @ [Common_build sl mo]\<rparr>)"
  using assms
  by (simp add: build_passes_def needs_two_builds_eq monad_defs collab_defs split: if_splits)

lemma do_two_builds_grows:
  "grows is_build_pass_step s (snd (do_two_builds e sl mo s))"
  by (simp add: do_two_builds_def
        grows_def same_config_def new_calls_def monad_defs hook_defs collab_defs)

lemma do_two_builds_saved:
  "saved_xml_files (snd (do_two_builds e sl mo s)) = saved_xml_files s"
  by (simp add: do_two_builds_def monad_defs hook_defs collab_defs)

lemma do_two_builds_count:
  assumes "overrides e Build_one_setup" "overrides e Build_two_setup"
  shows "fst (do_two_builds e sl mo s) = Inr () \<and>
    filter is_common_build (new_calls s (snd (do_two_builds e sl mo s))) =
      [Common_build sl mo, Common_build sl mo]"
  using assms
  by (simp add: do_two_builds_def new_calls_def monad_defs hook_defs collab_defs)

lemma build_passes_grows:
  "grows is_build_pass_step s (snd (build_passes e sl mo s))"
proof (cases "fst (needs_two_builds sl mo s) = Inr True")
  case True
  then show ?thesis by (simp add: build_passes_two do_two_builds_grows)
next
  case False
  then show ?thesis
    by (simp add: build_passes_one grows_def same_config_def new_calls_def)
qed

lemma build_passes_saved:
  "saved_xml_files (snd (build_passes e sl mo s)) = saved_xml_files s"
proof (cases "fst (needs_two_builds sl mo s) = Inr True")
  case True
  then show ?thesis by (simp add: build_passes_two do_two_builds_saved)
next
  case False
  then show ?thesis by (simp add: build_passes_one)
qed

lemma build_passes_count:
  assumes "fst (needs_two_builds sl mo s) = Inr True \<longrightarrow>
           overrides e Build_one_setup \<and> overrides e Build_two_setup"
  shows "fst (build_passes e sl mo s) = Inr () \<and>
         filter is_common_build (new_calls s (snd (build_passes e sl mo s))) =
           (if fst (needs_two_builds sl mo s) = Inr True
            then [Common_build sl mo, Common_build sl mo] else [Common_build sl mo])"
proof (cases "fst (needs_two_builds sl mo s) = Inr True")
  case True
  with assms show ?thesis by (simp add: build_passes_two do_two_builds_count)
next
  case False
  then show ?thesis by (simp add: build_passes_one new_calls_def)
qed

lemma then_m_ok: "fst (m s) = Inr () \<Longrightarrow> then_m m k s = k (snd (m s))"
  by (cases "m s") (simp add: then_m_def bind_m_def)

lemma grows_refl: "grows P s s"
  by (simp add: grows_def same_config_def new_calls_def)

lemma new_calls_append: "log s' = log s @ xs \<Longrightarrow> new_calls s s' = xs"
  by (simp add: new_calls_def)

lemma grows_trans:
  assumes "grows P s s'" and "grows P s' s''"
  shows "grows P s s''" and "new_calls s s'' = new_calls s s' @ new_calls s' s''"
proof -
  define xs where "xs = new_calls s s'"
  define ys where "ys = new_calls s' s''"
  from assms have a: "log s' = log s @ xs" and b: "log s'' = log s' @ ys"
    and p: "list_all P xs" "list_all P ys"
    by (simp_all add: grows_def xs_def ys_def)
  from a b have l: "log s'' = log s @ (xs @ ys)" by simp
  then have c: "new_calls s s'' = xs @ ys" by (rule new_calls_append)
  then show "new_calls s s'' = new_calls s s' @ new_calls s' s''"
    by (simp add: xs_def ys_def)
  from assms have "same_config s s''" by (auto simp add: grows_def same_config_def)
  with l c p show "grows P s s''" by (simp add: grows_def)
qed

lemma build_eq:
  "build e sl mo s =
     then_m pre_build_restore_or_save_xml_files
       (then_m (\<lambda>s. (if runs_have_different_pe_settings s then create_pe_files e
                      else return_m ()) s)
          (then_m (pre_build e) (build_passes e sl mo))) s"
  by (simp add: build_def build_passes_def then_m_def bind_m_def return_m_def
        split: prod.splits sum.splits)

lemma count_list_none: "list_all P xs \<Longrightarrow> \<not> P c \<Longrightarrow> count_list xs c = 0"
  by (induction xs) auto

lemma filter_none: "list_all P xs \<Longrightarrow> (\<And>c. P c \<Longrightarrow> \<not> Q c) \<Longrightarrow> filter Q xs = []"
  by (induction xs) auto

lemma create_pe_files_counts:
  assumes "overrides e Adjust_pes_for_run_one" "overrides e Adjust_pes_for_run_two"
  shows "count_list (new_calls s (snd (create_pe_files e s))) (Hook Adjust_pes_for_run_one) \<le> 1"
    and "count_list (new_calls s (snd (create_pe_files e s))) (Hook Adjust_pes_for_run_two) \<le> 1"
  by (simp_all add: create_pe_files_calls [OF assms])

lemma build_summary:
  assumes "runs_have_different_pe_settings s \<longrightarrow>
             overrides e Adjust_pes_for_run_one \<and> overrides e Adjust_pes_for_run_two"
  shows "\<exists>before after.
           log (snd (build e sl mo s)) = log s @ before @ [Hook Pre_build] @ after \<and>
           list_all is_restore_or_pe_file_step before \<and>
           list_all is_build_pass_step after \<and>
           same_config s (snd (build e sl mo s)) \<and>
           (runs_have_different_pe_settings s \<longrightarrow>
              (''env_mach_pes'', run_one_suffix s) \<in> set (saved_xml_files (snd (build e sl mo s))) \<and>
              (''env_mach_pes'', run_two_suffix s) \<in> set (saved_xml_files (snd (build e sl mo s)))) \<and>
           count_list before (Hook Adjust_pes_for_run_one) \<le> 1 \<and>
           count_list before (Hook Adjust_pes_for_run_two) \<le> 1 \<and>
           ((''env_mach_pes'', run_one_suffix s) \<in> set (saved_xml_files s) \<and>
            (''env_mach_pes'', run_two_suffix s) \<in> set (saved_xml_files s) \<longrightarrow>
              Hook Adjust_pes_for_run_one \<notin> set before \<and>
              Hook Adjust_pes_for_run_two \<notin> set before) \<and>
           ((fst (needs_two_builds sl mo s) = Inr True \<longrightarrow>
               overrides e Build_one_setup \<and> overrides e Build_two_setup) \<longrightarrow>
              fst (build e sl mo s) = Inr () \<and>
              filter is_common_build after =
                (if fst (needs_two_builds sl mo s) = Inr True
                 then [Common_build sl mo, Common_build sl mo] else [Common_build sl mo]))"
proof -
  let ?s1 = "snd (pre_build_restore_or_save_xml_files s)"
  let ?C = "\<lambda>s. (if runs_have_different_pe_settings s then create_pe_files e
                 else return_m ()) s"
  let ?s2 = "snd (?C ?s1)"
  let ?s3 = "?s2\<lparr>log := log ?s2 @ [Hook Pre_build]\<rparr>"
  let ?s4 = "snd (build_passes e sl mo ?s3)"
  let ?one = "(''env_mach_pes'', run_one_suffix s)"
  let ?two = "(''env_mach_pes'', run_two_suffix s)"
  define before where "before = new_calls s ?s2"
  define after where "after = new_calls ?s3 ?s4"
  have r: "fst (pre_build_restore_or_save_xml_files s) = Inr ()"
    and g1: "grows is_restore_or_pe_file_step s ?s1"
    using restore_grows [of s] by simp_all
  from g1 have cfg1: "same_config s ?s1" by (simp add: grows_def)
  then have sfx1: "run_one_suffix ?s1 = run_one_suffix s" "run_two_suffix ?s1 = run_two_suffix s"
    and sub1: "set (saved_xml_files s) \<subseteq> set (saved_xml_files ?s1)"
    by (simp_all add: same_config_def)
  have c: "fst (?C ?s1) = Inr () \<and> grows is_restore_or_pe_file_step ?s1 ?s2 \<and>
           (runs_have_different_pe_settings s \<longrightarrow>
              ?one \<in> set (saved_xml_files ?s2) \<and> ?two \<in> set (saved_xml_files ?s2)) \<and>
           count_list (new_calls ?s1 ?s2) (Hook Adjust_pes_for_run_one) \<le> 1 \<and>
           count_list (new_calls ?s1 ?s2) (Hook Adjust_pes_for_run_two) \<le> 1 \<and>
           (?one \<in> set (saved_xml_files s) \<and> ?two \<in> set (saved_xml_files s) \<longrightarrow>
              new_calls ?s1 ?s2 = [])"
  proof (cases "runs_have_different_pe_settings s")
    case True
    with cfg1 have pe1: "runs_have_different_pe_settings ?s1" by (simp add: same_config_def)
    from True assms have ov: "overrides e Adjust_pes_for_run_one"
      "overrides e Adjust_pes_for_run_two" by simp_all
    have "?one \<in> set (saved_xml_files s) \<and> ?two \<in> set (saved_xml_files s) \<longrightarrow>
            new_calls ?s1 (snd (create_pe_files e ?s1)) = []"
    proof
      assume "?one \<in> set (saved_xml_files s) \<and> ?two \<in> set (saved_xml_files s)"
      with sub1 sfx1
      have "(''env_mach_pes'', run_one_suffix ?s1) \<in> set (saved_xml_files ?s1)"
        and "(''env_mach_pes'', run_two_suffix ?s1) \<in> set (saved_xml_files ?s1)"
        by auto
      then have "create_pe_files e ?s1 = (Inr (), ?s1)" by (rule create_pe_files_existing)
      then show "new_calls ?s1 (snd (create_pe_files e ?s1)) = []"
        by (simp add: new_calls_def)
    qed
    then show ?thesis
      using create_pe_files_grows [OF ov, of ?s1] create_pe_files_counts [OF ov, of ?s1]
        pe1 sfx1 by simp
  next
    case False
    with cfg1 have "\<not> runs_have_different_pe_settings ?s1" by (simp add: same_config_def)
    with False show ?thesis by (simp add: return_m_def grows_refl) (simp add: new_calls_def)
  qed
  from g1 c have g2: "grows is_restore_or_pe_file_step s ?s2"
    and n2: "new_calls s ?s2 = new_calls s ?s1 @ new_calls ?s1 ?s2"
    using grows_trans by blast+
  have nh: "Hook h \<notin> set (new_calls s ?s1)" for h by (rule restore_no_hook)
  have b: "build e sl mo s = build_passes e sl mo ?s3"
  proof -
    have "build e sl mo s = then_m ?C (then_m (pre_build e) (build_passes e sl mo)) ?s1"
      unfolding build_eq using r by (rule then_m_ok)
    also have "\<dots> = then_m (pre_build e) (build_passes e sl mo) ?s2"
      using c by (intro then_m_ok) simp
    also have "\<dots> = build_passes e sl mo ?s3"
      by (simp add: pre_build_def then_m_def bind_m_def record_call_def)
    finally show ?thesis .
  qed
  have g3: "grows is_build_pass_step ?s3 ?s4" by (rule build_passes_grows)
  from g2 have l2: "log ?s2 = log s @ before" and p2: "list_all is_restore_or_pe_file_step before"
    and cfg2: "same_config s ?s2"
    by (simp_all add: grows_def before_def)
  from g3 have l4: "log ?s4 = log ?s3 @ after" and p4: "list_all is_build_pass_step after"
    and cfg3: "same_config ?s3 ?s4"
    by (simp_all add: grows_def after_def)
  have l: "log (snd (build e sl mo s)) = log s @ before @ [Hook Pre_build] @ after"
    using l2 l4 b by simp
  have cfg: "same_config s (snd (build e sl mo s))"
    using cfg2 cfg3 b by (auto simp add: same_config_def)
  have sv: "runs_have_different_pe_settings s \<longrightarrow>
              ?one \<in> set (saved_xml_files (snd (build e sl mo s))) \<and>
              ?two \<in> set (saved_xml_files (snd (build e sl mo s)))"
    using c b by (simp add: build_passes_saved)
  have c1: "count_list before (Hook Adjust_pes_for_run_one) \<le> 1"
    and c2: "count_list before (Hook Adjust_pes_for_run_two) \<le> 1"
    using c nh n2 by (simp_all add: before_def count_list_0_iff)
  have ex: "?one \<in> set (saved_xml_files s) \<and> ?two \<in> set (saved_xml_files s) \<longrightarrow>
              Hook Adjust_pes_for_run_one \<notin> set before \<and>
              Hook Adjust_pes_for_run_two \<notin> set before"
    using c nh n2 by (simp add: before_def)
  have n3: "fst (needs_two_builds sl mo ?s3) = fst (needs_two_builds sl mo s)"
    using cfg2 by (simp add: needs_two_builds_eq same_config_def)
  have cnt: "(fst (needs_two_builds sl mo s) = Inr True \<longrightarrow>
               overrides e Build_one_setup \<and> overrides e Build_two_setup) \<longrightarrow>
              fst (build e sl mo s) = Inr () \<and>
              filter is_common_build after =
                (if fst (needs_two_builds sl mo s) = Inr True
                 then [Common_build sl mo, Common_build sl mo] else [Common_build sl mo])"
    using build_passes_count [of sl mo ?s3 e] n3 b by (simp add: after_def)
  from l p2 p4 cfg sv c1 c2 ex cnt show ?thesis by blast
qed

lemma build_twice:
  assumes pe: "runs_have_different_pe_settings s"
    and ov: "overrides e Adjust_pes_for_run_one" "overrides e Adjust_pes_for_run_two"
  shows "count_list (new_calls s (snd (build e sl' mo' (snd (build e sl mo s)))))
            (Hook Adjust_pes_for_run_one) \<le> 1 \<and>
         count_list (new_calls s (snd (build e sl' mo' (snd (build e sl mo s)))))
            (Hook Adjust_pes_for_run_two) \<le> 1 \<and>
         Hook Adjust_pes_for_run_one
           \<notin> set (new_calls (snd (build e sl mo s)) (snd (build e sl' mo' (snd (build e sl mo s))))) \<and>
         Hook Adjust_pes_for_run_two
           \<notin> set (new_calls (snd (build e sl mo s)) (snd (build e sl' mo' (snd (build e sl mo s)))))"
proof -
  let ?t = "snd (build e sl mo s)"
  let ?u = "snd (build e sl' mo' ?t)"
  from ov have h: "runs_have_different_pe_settings s \<longrightarrow>
      overrides e Adjust_pes_for_run_one \<and> overrides e Adjust_pes_for_run_two" by simp
  from build_summary [OF h, of sl mo] pe obtain b1 a1 where
    l1: "log ?t = log s @ b1 @ [Hook Pre_build] @ a1"
    and pb1: "list_all is_restore_or_pe_file_step b1"
    and pa1: "list_all is_build_pass_step a1"
    and cfg: "same_config s ?t"
    and sv: "(''env_mach_pes'', run_one_suffix s) \<in> set (saved_xml_files ?t)"
            "(''env_mach_pes'', run_two_suffix s) \<in> set (saved_xml_files ?t)"
    and c1: "count_list b1 (Hook Adjust_pes_for_run_one) \<le> 1"
            "count_list b1 (Hook Adjust_pes_for_run_two) \<le> 1"
    by blast
  from cfg have sfx: "run_one_suffix ?t = run_one_suffix s" "run_two_suffix ?t = run_two_suffix s"
    by (simp_all add: same_config_def)
  from ov have h': "runs_have_different_pe_settings ?t \<longrightarrow>
      overrides e Adjust_pes_for_run_one \<and> overrides e Adjust_pes_for_run_two" by simp
  from build_summary [OF h', of sl' mo'] sv sfx obtain b2 a2 where
    l2: "log ?u = log ?t @ b2 @ [Hook Pre_build] @ a2"
    and pa2: "list_all is_build_pass_step a2"
    and n2: "Hook Adjust_pes_for_run_one \<notin> set b2" "Hook Adjust_pes_for_run_two \<notin> set b2"
    by auto
  have z1: "count_list a1 (Hook Adjust_pes_for_run_one) = 0"
    "count_list a1 (Hook Adjust_pes_for_run_two) = 0"
    using pa1 by (auto intro: count_list_none)
  have z2: "count_list a2 (Hook Adjust_pes_for_run_one) = 0"
    "count_list a2 (Hook Adjust_pes_for_run_two) = 0"
    using pa2 by (auto intro: count_list_none)
  from n2 have z3: "count_list b2 (Hook Adjust_pes_for_run_one) = 0"
    "count_list b2 (Hook Adjust_pes_for_run_two) = 0"
    by (simp_all add: count_list_0_iff)
  from l1 l2 have "log ?u = log s @ (b1 @ [Hook Pre_build] @ a1 @ b2 @ [Hook Pre_build] @ a2)"
    by simp
  then have m: "new_calls s ?u = b1 @ [Hook Pre_build] @ a1 @ b2 @ [Hook Pre_build] @ a2"
    by (rule new_calls_append)
  from l2 have m2: "new_calls ?t ?u = b2 @ [Hook Pre_build] @ a2"
    by (rule new_calls_append)
  from z2 have "Hook Adjust_pes_for_run_one \<notin> set a2" "Hook Adjust_pes_for_run_two \<notin> set a2"
    by (simp_all add: count_list_0_iff)
  with m m2 c1 z1 z2 z3 n2 show ?thesis by simp
qed

subsection \<open>Properties of \<^verbatim>\<open>build\<close>\<close>

text \<open>
  C5. Let \<^verbatim>\<open>sharedlib_only\<close> and \<^verbatim>\<open>model_only\<close> not both be set, and let the test
  override the hooks its flags call for: the two layout hooks when the runs differ
  in their PE settings, the two build-setup hooks when some build is done twice.
  Then \<^verbatim>\<open>_needs_two_builds\<close> returns true exactly when nothing restricts the scope
  and one of the two-build flags is set, or only the shared libraries are built and
  they need two builds, or only the model is built and it needs two builds; and
  \<^verbatim>\<open>build\<close> returns after two calls of the build of the base class when the answer
  is true, and after exactly one otherwise.
\<close>

theorem build_two_builds_decision:
  assumes "\<not> (sl \<and> mo)"
    and "runs_have_different_pe_settings s \<longrightarrow>
           overrides e Adjust_pes_for_run_one \<and> overrides e Adjust_pes_for_run_two"
    and "two_builds_for_sharedlib s \<or> two_builds_for_model s \<longrightarrow>
           overrides e Build_one_setup \<and> overrides e Build_two_setup"
  shows "needs_two_builds sl mo s =
           (Inr ((\<not> sl \<and> \<not> mo \<and> (two_builds_for_sharedlib s \<or> two_builds_for_model s)) \<or>
                 (sl \<and> \<not> mo \<and> two_builds_for_sharedlib s) \<or>
                 (mo \<and> \<not> sl \<and> two_builds_for_model s)), s) \<and>
         fst (build e sl mo s) = Inr () \<and>
         filter is_common_build (new_calls s (snd (build e sl mo s))) =
           (if (\<not> sl \<and> \<not> mo \<and> (two_builds_for_sharedlib s \<or> two_builds_for_model s)) \<or>
               (sl \<and> \<not> mo \<and> two_builds_for_sharedlib s) \<or>
               (mo \<and> \<not> sl \<and> two_builds_for_model s)
            then [Common_build sl mo, Common_build sl mo]
            else [Common_build sl mo])"
proof -
  have d: "needs_two_builds sl mo s =
           (Inr ((\<not> sl \<and> \<not> mo \<and> (two_builds_for_sharedlib s \<or> two_builds_for_model s)) \<or>
                 (sl \<and> \<not> mo \<and> two_builds_for_sharedlib s) \<or>
                 (mo \<and> \<not> sl \<and> two_builds_for_model s)), s)"
    using assms(1) by (auto simp add: needs_two_builds_eq)
  have h: "fst (needs_two_builds sl mo s) = Inr True \<longrightarrow>
             overrides e Build_one_setup \<and> overrides e Build_two_setup"
    using assms(3) by (auto simp add: d)
  from build_summary [OF assms(2), of sl mo] h obtain before after where
    l: "log (snd (build e sl mo s)) = log s @ before @ [Hook Pre_build] @ after"
    and b: "list_all is_restore_or_pe_file_step before"
    and r: "fst (build e sl mo s) = Inr ()"
    and c: "filter is_common_build after =
                (if fst (needs_two_builds sl mo s) = Inr True
                 then [Common_build sl mo, Common_build sl mo] else [Common_build sl mo])"
    by blast
  from l have n: "new_calls s (snd (build e sl mo s)) = before @ [Hook Pre_build] @ after"
    by (rule new_calls_append)
  have "filter is_common_build before = []"
    using b by (rule filter_none) (auto elim: is_restore_or_pe_file_step.elims)
  with n c have "filter is_common_build (new_calls s (snd (build e sl mo s))) =
      (if fst (needs_two_builds sl mo s) = Inr True
       then [Common_build sl mo, Common_build sl mo] else [Common_build sl mo])"
    by simp
  with d r show ?thesis by simp
qed

theorem build_two_builds_decision_witness:
  "runs_have_different_pe_settings (projr (init [] True False True ''test'' [] [])) \<and>
   overrides (fake_env [] True) Adjust_pes_for_run_one \<and>
   overrides (fake_env [] True) Adjust_pes_for_run_two \<and>
   two_builds_for_sharedlib (projr (init [] True False True ''test'' [] [])) \<and>
   overrides (fake_env [] True) Build_one_setup \<and>
   overrides (fake_env [] True) Build_two_setup \<and>
   fst (needs_two_builds True False (projr (init [] True False True ''test'' [] []))) = Inr True \<and>
   fst (needs_two_builds False True (projr (init [] True False True ''test'' [] []))) = Inr False \<and>
   filter is_common_build (new_calls (projr (init [] True False True ''test'' [] []))
     (snd (build (fake_env [] True) True False
            (projr (init [] True False True ''test'' [] []))))) =
     [Common_build True False, Common_build True False] \<and>
   filter is_common_build (new_calls (projr (init [] True False True ''test'' [] []))
     (snd (build (fake_env [] True) False True
            (projr (init [] True False True ''test'' [] []))))) =
     [Common_build False True]"
  using build_two_builds_decision [of True False "projr (init [] True False True ''test'' [] [])"
        "fake_env [] True"]
    build_two_builds_decision [of False True "projr (init [] True False True ''test'' [] [])"
        "fake_env [] True"]
  by (simp add: init_defs fake_env_def)

text \<open>
  C9. Let the test override the two layout hooks when the runs differ in their PE
  settings. Then every call of \<^verbatim>\<open>build\<close>, whatever the scope and whether one build
  pass follows or two, calls \<^verbatim>\<open>_pre_build\<close> exactly once: all calls before it
  restore or save the original files or create the layout files of the runs, and
  all calls after it belong to the build passes, so no build of the base class
  comes before it.
\<close>

theorem build_pre_build_once:
  assumes "runs_have_different_pe_settings s \<longrightarrow>
             overrides e Adjust_pes_for_run_one \<and> overrides e Adjust_pes_for_run_two"
  shows "count_list (new_calls s (snd (build e sl mo s))) (Hook Pre_build) = 1 \<and>
         (\<exists>before after.
            new_calls s (snd (build e sl mo s)) = before @ [Hook Pre_build] @ after \<and>
            list_all is_restore_or_pe_file_step before \<and>
            list_all is_build_pass_step after)"
proof -
  from build_summary [OF assms, of sl mo] obtain before after where
    l: "log (snd (build e sl mo s)) = log s @ before @ [Hook Pre_build] @ after"
    and b: "list_all is_restore_or_pe_file_step before"
    and a: "list_all is_build_pass_step after"
    by blast
  from l have n: "new_calls s (snd (build e sl mo s)) = before @ [Hook Pre_build] @ after"
    by (rule new_calls_append)
  have "count_list before (Hook Pre_build) = 0" using b by (rule count_list_none) simp
  moreover have "count_list after (Hook Pre_build) = 0" using a by (rule count_list_none) simp
  ultimately have "count_list (new_calls s (snd (build e sl mo s))) (Hook Pre_build) = 1"
    using n by simp
  with n a b show ?thesis by blast
qed

theorem build_pre_build_once_witness:
  "runs_have_different_pe_settings (projr (init [] True False True ''test'' [] [])) \<and>
   overrides (fake_env [] True) Adjust_pes_for_run_one \<and>
   overrides (fake_env [] True) Adjust_pes_for_run_two \<and>
   count_list (new_calls (projr (init [] True False True ''test'' [] []))
     (snd (build (fake_env [] True) False False
            (projr (init [] True False True ''test'' [] []))))) (Hook Pre_build) = 1 \<and>
   new_calls (projr (init [] True False True ''test'' [] []))
     (snd (build (fake_env [] True) False False
            (projr (init [] True False True ''test'' [] [])))) =
     [Restore_or_save_xml_file ''env_mach_pes'' ''original'',
      Restore_or_save_xml_file ''env_build'' ''original'',
      Hook Adjust_pes_for_run_one, Case_flush, Save_xml_file ''env_mach_pes'' ''base'',
      Hook Adjust_pes_for_run_two, Case_flush, Save_xml_file ''env_mach_pes'' ''test'',
      Hook Pre_build,
      Stage_saved_pes_file ''base'', Load_staged_xml_files True, Hook Build_one_setup,
      Common_build False False, Save_build_files ''base'',
      Stage_saved_pes_file ''test'', Load_staged_xml_files True, Hook Build_two_setup,
      Common_build False False, Save_build_files ''test'']"
proof -
  have "new_calls (projr (init [] True False True ''test'' [] []))
     (snd (build (fake_env [] True) False False
            (projr (init [] True False True ''test'' [] [])))) =
     [Restore_or_save_xml_file ''env_mach_pes'' ''original'',
      Restore_or_save_xml_file ''env_build'' ''original'',
      Hook Adjust_pes_for_run_one, Case_flush, Save_xml_file ''env_mach_pes'' ''base'',
      Hook Adjust_pes_for_run_two, Case_flush, Save_xml_file ''env_mach_pes'' ''test'',
      Hook Pre_build,
      Stage_saved_pes_file ''base'', Load_staged_xml_files True, Hook Build_one_setup,
      Common_build False False, Save_build_files ''base'',
      Stage_saved_pes_file ''test'', Load_staged_xml_files True, Hook Build_two_setup,
      Common_build False False, Save_build_files ''test'']"
    by (simp add: init_defs fake_env_def build_def create_pe_files_def do_two_builds_def
          needs_two_builds_def pre_build_restore_or_save_xml_files_def
          has_two_executables_def new_calls_def monad_defs hook_defs collab_defs)
  moreover have "runs_have_different_pe_settings (projr (init [] True False True ''test'' [] []))"
    by (simp add: init_defs)
  moreover have "overrides (fake_env [] True) Adjust_pes_for_run_one \<and>
      overrides (fake_env [] True) Adjust_pes_for_run_two"
    by (simp add: fake_env_def)
  ultimately show ?thesis
    using build_pre_build_once [of "projr (init [] True False True ''test'' [] [])"
        "fake_env [] True" False False]
    by simp
qed

text \<open>
  C6. \<^verbatim>\<open>_create_pe_files\<close> looks for the saved layout file of each run first. When
  the file saved under the first suffix is there, the step neither calls
  \<^verbatim>\<open>_adjust_pes_for_run_one\<close> nor saves a file under that suffix, and it flushes
  the case at most once, for the other run; the same holds for the second suffix;
  and when both files are there the step does nothing at all. So when the test
  overrides the two layout hooks, a second execution of the step right after the
  first does nothing, and the two executions together call each layout hook at most
  once. The same holds for two calls of \<^verbatim>\<open>build\<close> in a row: together they call
  each layout hook at most once, and the second calls neither.
\<close>

theorem create_pe_files_idempotent:
  "((''env_mach_pes'', run_one_suffix s) \<in> set (saved_xml_files s) \<longrightarrow>
      Hook Adjust_pes_for_run_one \<notin> set (new_calls s (snd (create_pe_files e s))) \<and>
      Save_xml_file ''env_mach_pes'' (run_one_suffix s)
        \<notin> set (new_calls s (snd (create_pe_files e s))) \<and>
      length (filter ((=) Case_flush) (new_calls s (snd (create_pe_files e s)))) \<le>
        (if (''env_mach_pes'', run_two_suffix s) \<in> set (saved_xml_files s) then 0 else 1)) \<and>
   ((''env_mach_pes'', run_two_suffix s) \<in> set (saved_xml_files s) \<longrightarrow>
      Hook Adjust_pes_for_run_two \<notin> set (new_calls s (snd (create_pe_files e s))) \<and>
      Save_xml_file ''env_mach_pes'' (run_two_suffix s)
        \<notin> set (new_calls s (snd (create_pe_files e s))) \<and>
      length (filter ((=) Case_flush) (new_calls s (snd (create_pe_files e s)))) \<le>
        (if (''env_mach_pes'', run_one_suffix s) \<in> set (saved_xml_files s) then 0 else 1)) \<and>
   ((''env_mach_pes'', run_one_suffix s) \<in> set (saved_xml_files s) \<and>
    (''env_mach_pes'', run_two_suffix s) \<in> set (saved_xml_files s) \<longrightarrow>
      create_pe_files e s = (Inr (), s)) \<and>
   (overrides e Adjust_pes_for_run_one \<and> overrides e Adjust_pes_for_run_two \<longrightarrow>
      fst (create_pe_files e s) = Inr () \<and>
      create_pe_files e (snd (create_pe_files e s)) = (Inr (), snd (create_pe_files e s)) \<and>
      count_list (new_calls s (snd (create_pe_files e (snd (create_pe_files e s)))))
        (Hook Adjust_pes_for_run_one) \<le> 1 \<and>
      count_list (new_calls s (snd (create_pe_files e (snd (create_pe_files e s)))))
        (Hook Adjust_pes_for_run_two) \<le> 1) \<and>
   (overrides e Adjust_pes_for_run_one \<and> overrides e Adjust_pes_for_run_two \<and>
    runs_have_different_pe_settings s \<longrightarrow>
      count_list (new_calls s (snd (build e sl' mo' (snd (build e sl mo s)))))
        (Hook Adjust_pes_for_run_one) \<le> 1 \<and>
      count_list (new_calls s (snd (build e sl' mo' (snd (build e sl mo s)))))
        (Hook Adjust_pes_for_run_two) \<le> 1 \<and>
      Hook Adjust_pes_for_run_one
        \<notin> set (new_calls (snd (build e sl mo s))
                  (snd (build e sl' mo' (snd (build e sl mo s))))) \<and>
      Hook Adjust_pes_for_run_two
        \<notin> set (new_calls (snd (build e sl mo s))
                  (snd (build e sl' mo' (snd (build e sl mo s))))))"
proof -
  have twice: "fst (create_pe_files e s) = Inr () \<and>
      create_pe_files e (snd (create_pe_files e s)) = (Inr (), snd (create_pe_files e s)) \<and>
      count_list (new_calls s (snd (create_pe_files e (snd (create_pe_files e s)))))
        (Hook Adjust_pes_for_run_one) \<le> 1 \<and>
      count_list (new_calls s (snd (create_pe_files e (snd (create_pe_files e s)))))
        (Hook Adjust_pes_for_run_two) \<le> 1"
    if ov: "overrides e Adjust_pes_for_run_one" "overrides e Adjust_pes_for_run_two"
  proof -
    let ?t = "snd (create_pe_files e s)"
    from create_pe_files_grows [OF ov, of s]
    have r: "fst (create_pe_files e s) = Inr ()" and g: "grows is_restore_or_pe_file_step s ?t"
      and sv: "(''env_mach_pes'', run_one_suffix s) \<in> set (saved_xml_files ?t)"
              "(''env_mach_pes'', run_two_suffix s) \<in> set (saved_xml_files ?t)"
      by simp_all
    from g have "run_one_suffix ?t = run_one_suffix s" "run_two_suffix ?t = run_two_suffix s"
      by (simp_all add: grows_def same_config_def)
    with sv have "create_pe_files e ?t = (Inr (), ?t)"
      by (intro create_pe_files_existing) simp_all
    with r create_pe_files_counts [OF ov, of s] show ?thesis by simp
  qed
  show ?thesis
    using create_pe_files_skips_one [of s e] create_pe_files_skips_two [of s e]
      create_pe_files_existing [of s e] twice build_twice [of s e sl' mo' sl mo]
    by blast
qed

theorem create_pe_files_idempotent_witness:
  "(let e = fake_env [] True;
        s0 = projr (init [] False False True ''test'' [] []);
        s1 = projr (init [(''env_mach_pes'', ''base'')] False False True ''test'' [] []);
        s2 = projr (init [(''env_mach_pes'', ''base''), (''env_mach_pes'', ''test'')]
                      False False True ''test'' [] []) in
    (''env_mach_pes'', run_one_suffix s1) \<in> set (saved_xml_files s1) \<and>
    Hook Adjust_pes_for_run_one \<notin> set (new_calls s1 (snd (create_pe_files e s1))) \<and>
    new_calls s1 (snd (create_pe_files e s1)) =
      [Hook Adjust_pes_for_run_two, Case_flush, Save_xml_file ''env_mach_pes'' ''test''] \<and>
    (''env_mach_pes'', run_one_suffix s2) \<in> set (saved_xml_files s2) \<and>
    (''env_mach_pes'', run_two_suffix s2) \<in> set (saved_xml_files s2) \<and>
    create_pe_files e s2 = (Inr (), s2) \<and>
    overrides e Adjust_pes_for_run_one \<and> overrides e Adjust_pes_for_run_two \<and>
    runs_have_different_pe_settings s0 \<and>
    create_pe_files e (snd (create_pe_files e s0)) = (Inr (), snd (create_pe_files e s0)) \<and>
    new_calls s0 (snd (create_pe_files e s0)) =
      [Hook Adjust_pes_for_run_one, Case_flush, Save_xml_file ''env_mach_pes'' ''base'',
       Hook Adjust_pes_for_run_two, Case_flush, Save_xml_file ''env_mach_pes'' ''test''] \<and>
    Hook Adjust_pes_for_run_one
      \<notin> set (new_calls (snd (build e True False s0))
                (snd (build e False True (snd (build e True False s0))))) \<and>
    new_calls (snd (build e True False s0)) (snd (build e False True (snd (build e True False s0))))
      = [Restore_or_save_xml_file ''env_mach_pes'' ''original'', Case_read_xml, Hook Pre_build,
         Stage_saved_pes_file ''base'', Load_staged_xml_files True, Common_build False True])"
proof -
  let ?e = "fake_env [] True"
  let ?s0 = "projr (init [] False False True ''test'' [] [])"
  let ?s1 = "projr (init [(''env_mach_pes'', ''base'')] False False True ''test'' [] [])"
  let ?s2 = "projr (init [(''env_mach_pes'', ''base''), (''env_mach_pes'', ''test'')]
                      False False True ''test'' [] [])"
  note defs = init_defs fake_env_def build_def create_pe_files_def do_two_builds_def
        needs_two_builds_def pre_build_restore_or_save_xml_files_def
        has_two_executables_def new_calls_def monad_defs hook_defs collab_defs
  have h1: "(''env_mach_pes'', run_one_suffix ?s1) \<in> set (saved_xml_files ?s1)"
    by (simp add: init_defs)
  have h2: "(''env_mach_pes'', run_one_suffix ?s2) \<in> set (saved_xml_files ?s2) \<and>
            (''env_mach_pes'', run_two_suffix ?s2) \<in> set (saved_xml_files ?s2)"
    by (simp add: init_defs)
  have h3: "overrides ?e Adjust_pes_for_run_one \<and> overrides ?e Adjust_pes_for_run_two \<and>
            runs_have_different_pe_settings ?s0"
    by (simp add: init_defs fake_env_def)
  have v1: "new_calls ?s1 (snd (create_pe_files ?e ?s1)) =
      [Hook Adjust_pes_for_run_two, Case_flush, Save_xml_file ''env_mach_pes'' ''test'']"
    by (simp add: defs)
  have v2: "new_calls ?s0 (snd (create_pe_files ?e ?s0)) =
      [Hook Adjust_pes_for_run_one, Case_flush, Save_xml_file ''env_mach_pes'' ''base'',
       Hook Adjust_pes_for_run_two, Case_flush, Save_xml_file ''env_mach_pes'' ''test'']"
    by (simp add: defs)
  have v3: "new_calls (snd (build ?e True False ?s0))
              (snd (build ?e False True (snd (build ?e True False ?s0))))
      = [Restore_or_save_xml_file ''env_mach_pes'' ''original'', Case_read_xml, Hook Pre_build,
         Stage_saved_pes_file ''base'', Load_staged_xml_files True, Common_build False True]"
    by (simp add: defs)
  from h1 have c1: "Hook Adjust_pes_for_run_one
      \<notin> set (new_calls ?s1 (snd (create_pe_files ?e ?s1)))"
    using create_pe_files_idempotent [where e = ?e and s = ?s1 and sl = True and mo = False
        and sl' = False and mo' = True]
    by blast
  from h2 have c2: "create_pe_files ?e ?s2 = (Inr (), ?s2)"
    using create_pe_files_idempotent [where e = ?e and s = ?s2 and sl = True and mo = False
        and sl' = False and mo' = True]
    by blast
  from h3 have c3: "create_pe_files ?e (snd (create_pe_files ?e ?s0)) =
        (Inr (), snd (create_pe_files ?e ?s0)) \<and>
      Hook Adjust_pes_for_run_one
        \<notin> set (new_calls (snd (build ?e True False ?s0))
                (snd (build ?e False True (snd (build ?e True False ?s0)))))"
    using create_pe_files_idempotent [where e = ?e and s = ?s0 and sl = True and mo = False
        and sl' = False and mo' = True]
    by blast
  from h1 h2 h3 v1 v2 v3 c1 c2 c3 show ?thesis
    unfolding Let_def by blast
qed

end
